theory Spec2Isabelle
  imports Complex_Main
begin

section \<open>Python values\<close>

text \<open>
  The monitor of \<^verbatim>\<open>examples/03_monitoring_alerts.py\<close> keeps its history as JSON: every
  stored result is a Python \<^verbatim>\<open>dict\<close> read back with \<^verbatim>\<open>json.load\<close>. The values such a
  dict can hold are modelled by \<open>pyval\<close>; a dict is a map from its string keys.

  Numbers (JSON integers and Python floats alike) are exact rationals. This is an
  idealisation of binary64: equality, order and sign are those of Python on finite
  numbers, while the subtraction and the two-decimal rounding below are exact. NaN and
  the infinities are outside the model.
\<close>

datatype pyval =
    PNone
  | PBool bool
  | PNum rat
  | PStr string
  | PList "pyval list"
  | PDict "string \<Rightarrow> pyval option"

type_synonym pydict = "string \<Rightarrow> pyval option"

datatype py_error = KeyError | TypeError | AttributeError

text \<open>A value used as a number: \<^verbatim>\<open>bool\<close> is a subclass of \<^verbatim>\<open>int\<close>, everything else that
  is not a number raises \<^verbatim>\<open>TypeError\<close> in arithmetic.\<close>

fun as_number :: "pyval \<Rightarrow> rat option" where
  "as_number (PNum x) = Some x"
| "as_number (PBool b) = Some (if b then 1 else 0)"
| "as_number v = None"

text \<open>A value used as a dict key or set element: lists and dicts are unhashable, and
  \<^verbatim>\<open>True == 1 == 1.0\<close> name the same key.\<close>

fun hashkey :: "pyval \<Rightarrow> py_error + pyval" where
  "hashkey (PList xs) = Inl TypeError"
| "hashkey (PDict d) = Inl TypeError"
| "hashkey (PBool b) = Inr (PNum (if b then 1 else 0))"
| "hashkey v = Inr v"

text \<open>Truthiness, as in \<^verbatim>\<open>if r.get('changes')\<close>.\<close>

fun truthy :: "pyval \<Rightarrow> bool" where
  "truthy PNone = False"
| "truthy (PBool b) = b"
| "truthy (PNum x) = (x \<noteq> 0)"
| "truthy (PStr s) = (s \<noteq> [])"
| "truthy (PList xs) = (xs \<noteq> [])"
| "truthy (PDict d) = (d \<noteq> Map.empty)"

text \<open>\<^verbatim>\<open>d.get(k, default)\<close>.\<close>

definition get_default :: "pydict \<Rightarrow> string \<Rightarrow> pyval \<Rightarrow> pyval" where
  "get_default d k v = (case d k of None \<Rightarrow> v | Some w \<Rightarrow> w)"

text \<open>\<^verbatim>\<open>xs[-n:]\<close> for a positive constant \<open>n\<close>: the last \<open>n\<close> elements, all of them when
  the list is shorter.\<close>

definition last_n :: "nat \<Rightarrow> 'a list \<Rightarrow> 'a list" where
  "last_n n xs = drop (length xs - n) xs"

text \<open>\<^verbatim>\<open>v[:3]\<close>: lists and strings can be sliced, nothing else can.\<close>

fun first3 :: "pyval \<Rightarrow> py_error + pyval list" where
  "first3 (PList xs) = Inr (take 3 xs)"
| "first3 (PStr s) = Inr (map (\<lambda>c. PStr [c]) (take 3 s))"
| "first3 v = Inl TypeError"

subsection \<open>Formatting\<close>

definition digit_char :: "nat \<Rightarrow> char" where
  "digit_char d = ''0123456789'' ! d"

fun show_nat :: "nat \<Rightarrow> string" where
  "show_nat n = (if n < 10 then [digit_char n] else show_nat (n div 10) @ [digit_char (n mod 10)])"

declare show_nat.simps [simp del]

definition round_half_even :: "rat \<Rightarrow> int" where
  "round_half_even q =
     (let f = \<lfloor>q\<rfloor>; r = q - of_int f
      in if r < 1 / 2 then f else if 1 / 2 < r then f + 1 else if even f then f else f + 1)"

text \<open>The format specification \<^verbatim>\<open>:.2f\<close>: sign, integer part, point, two digits, the value
  rounded to the nearest hundredth (ties to even).\<close>

definition fmt2 :: "rat \<Rightarrow> string" where
  "fmt2 x =
     (let n = nat (round_half_even (\<bar>x\<bar> * 100))
      in (if x < 0 then ''-'' else '''') @ show_nat (n div 100) @ ''.''
           @ [digit_char (n mod 100 div 10), digit_char (n mod 10)])"

text \<open>
  An f-string field \<^verbatim>\<open>{v}\<close> prints \<^verbatim>\<open>str(v)\<close>. For \<^verbatim>\<open>None\<close> (also what \<^verbatim>\<open>.get\<close> gives for
  a missing key), booleans and strings the text is fixed; how the interpreter prints
  numbers, lists and dicts is taken as the parameter \<open>py_str\<close>.
\<close>

fun str_of :: "(pyval \<Rightarrow> string) \<Rightarrow> pyval option \<Rightarrow> string" where
  "str_of py_str None = ''None''"
| "str_of py_str (Some PNone) = ''None''"
| "str_of py_str (Some (PBool b)) = (if b then ''True'' else ''False'')"
| "str_of py_str (Some (PStr s)) = s"
| "str_of py_str (Some v) = py_str v"

section \<open>Data model\<close>

record ProductMonitor =
  name :: string
  price :: rat
  in_stock :: bool
  last_checked :: string

record MonitoringResult =
  timestamp :: string
  url :: string
  status :: string
  data :: pydict
  changes :: "string list option"
  error_message :: "string option"

text \<open>\<^verbatim>\<open>model_dump()\<close> of the two pydantic classes: a dict with one key per declared field.\<close>

definition ProductMonitor_model_dump :: "ProductMonitor \<Rightarrow> pydict" where
  "ProductMonitor_model_dump p =
     [''name'' \<mapsto> PStr (name p), ''price'' \<mapsto> PNum (price p),
      ''in_stock'' \<mapsto> PBool (in_stock p), ''last_checked'' \<mapsto> PStr (last_checked p)]"

definition MonitoringResult_model_dump :: "MonitoringResult \<Rightarrow> pydict" where
  "MonitoringResult_model_dump r =
     [''timestamp'' \<mapsto> PStr (timestamp r), ''url'' \<mapsto> PStr (url r),
      ''status'' \<mapsto> PStr (status r), ''data'' \<mapsto> PDict (data r),
      ''changes'' \<mapsto> (case changes r of None \<Rightarrow> PNone | Some cs \<Rightarrow> PList (map PStr cs)),
      ''error_message'' \<mapsto> (case error_message r of None \<Rightarrow> PNone | Some e \<Rightarrow> PStr e)]"

section \<open>detect\_changes\<close>

definition first_time :: string where
  "first_time = ''First time monitoring this product''"

text \<open>\<^verbatim>\<open>prev_data.get(k) != x\<close> for a float or bool \<open>x\<close> (compared as numbers), and for a
  string \<open>x\<close>. A missing key gives \<^verbatim>\<open>None\<close>, which differs from every number and string.\<close>

definition ne_num :: "pyval option \<Rightarrow> rat \<Rightarrow> bool" where
  "ne_num v x = (case v of None \<Rightarrow> True | Some w \<Rightarrow> as_number w \<noteq> Some x)"

definition ne_str :: "pyval option \<Rightarrow> string \<Rightarrow> bool" where
  "ne_str v s = (v \<noteq> Some (PStr s))"

text \<open>The three \<^verbatim>\<open>if\<close> blocks of \<^verbatim>\<open>detect_changes\<close>, each giving what it appends.\<close>

definition price_check :: "ProductMonitor \<Rightarrow> pydict \<Rightarrow> py_error + string list" where
  "price_check current prev_data =
     (if ne_num (prev_data ''price'') (price current) then
        (case as_number (get_default prev_data ''price'' (PNum 0)) of
           None \<Rightarrow> Inl TypeError
         | Some old_price \<Rightarrow>
             (let diff = price current - old_price;
                  direction = (if diff > 0 then ''increased'' else ''decreased'')
              in Inr [''Price '' @ direction @ '' from $'' @ fmt2 old_price @ '' to $''
                        @ fmt2 (price current) @ '' ($'' @ fmt2 \<bar>diff\<bar> @ '')'']))
      else Inr [])"

definition stock_check :: "ProductMonitor \<Rightarrow> pydict \<Rightarrow> string list" where
  "stock_check current prev_data =
     (if ne_num (prev_data ''in_stock'') (if in_stock current then 1 else 0) then
        [''Stock status changed to: '' @ (if in_stock current then ''IN STOCK'' else ''OUT OF STOCK'')]
      else [])"

definition name_check :: "(pyval \<Rightarrow> string) \<Rightarrow> ProductMonitor \<Rightarrow> pydict \<Rightarrow> string list" where
  "name_check py_str current prev_data =
     (if ne_str (prev_data ''name'') (name current) then
        [''Product name changed from '' @ [CHR 0x27] @ str_of py_str (prev_data ''name'')
           @ [CHR 0x27] @ '' to '' @ [CHR 0x27] @ name current @ [CHR 0x27]]
      else [])"

text \<open>\<^verbatim>\<open>not previous\<close> holds for \<^verbatim>\<open>None\<close> and for the empty dict; \<^verbatim>\<open>prev_data.get\<close> needs
  \<^verbatim>\<open>previous['data']\<close> to be a dict (\<^verbatim>\<open>AttributeError\<close> otherwise).\<close>

definition detect_changes ::
  "(pyval \<Rightarrow> string) \<Rightarrow> string \<Rightarrow> ProductMonitor \<Rightarrow> pydict option \<Rightarrow> py_error + string list" where
  "detect_changes py_str u current previous =
     (case previous of
        None \<Rightarrow> Inr [first_time]
      | Some prev \<Rightarrow>
          if prev = Map.empty \<or> prev ''data'' = None then Inr [first_time]
          else
            (case prev ''data'' of
               Some (PDict prev_data) \<Rightarrow>
                 (case price_check current prev_data of
                    Inl e \<Rightarrow> Inl e
                  | Inr changes1 \<Rightarrow>
                      Inr (changes1 @ stock_check current prev_data
                             @ name_check py_str current prev_data))
             | _ \<Rightarrow> Inl AttributeError))"

text \<open>The status expression of \<^verbatim>\<open>monitor_products\<close>:
  \<^verbatim>\<open>'changed' if changes and len(changes) > 1 else 'success'\<close>.\<close>

definition result_status :: "string list \<Rightarrow> string" where
  "result_status chs = (if chs \<noteq> [] \<and> length chs > 1 then ''changed'' else ''success'')"

section \<open>The monitor\<close>

text \<open>
  The state of a \<^verbatim>\<open>WebsiteMonitor\<close>: the contents of the file \<^verbatim>\<open>monitoring_results.json\<close>
  (\<open>None\<close> while the file does not exist, otherwise the JSON array of stored results,
  \<^verbatim>\<open>json.dump\<close> followed by \<^verbatim>\<open>json.load\<close> being the identity on these values), the dict
  \<^verbatim>\<open>self.previous_state\<close>, and the calls of \<^verbatim>\<open>send_alert\<close> made so far with their
  arguments.
\<close>

record WebsiteMonitor =
  results_file :: "pydict list option"
  previous_state :: "pyval \<Rightarrow> pydict option"
  alerts :: "(string list \<times> ProductMonitor \<times> string) list"

text \<open>The stored results, an absent file read as no results.\<close>

definition stored :: "pydict list option \<Rightarrow> pydict list" where
  "stored f = (case f of None \<Rightarrow> [] | Some rs \<Rightarrow> rs)"

text \<open>The dict comprehension \<^verbatim>\<open>{r['url']: r for r in ...}\<close>, left to right, a later
  record replacing an earlier one under the same key.\<close>

fun by_url :: "pydict list \<Rightarrow> (pyval \<Rightarrow> pydict option) \<Rightarrow> py_error + (pyval \<Rightarrow> pydict option)" where
  "by_url [] w = Inr w"
| "by_url (r # rs) w =
     (case r ''url'' of
        None \<Rightarrow> Inl KeyError
      | Some v \<Rightarrow> (case hashkey v of Inl e \<Rightarrow> Inl e | Inr k \<Rightarrow> by_url rs (w(k \<mapsto> r))))"

definition load_previous_state :: "pydict list option \<Rightarrow> py_error + (pyval \<Rightarrow> pydict option)" where
  "load_previous_state f =
     (case f of None \<Rightarrow> Inr Map.empty | Some rs \<Rightarrow> by_url (last_n 10 rs) Map.empty)"

text \<open>\<^verbatim>\<open>WebsiteMonitor()\<close>.\<close>

definition init :: "pydict list option \<Rightarrow> py_error + WebsiteMonitor" where
  "init f =
     (case load_previous_state f of
        Inl e \<Rightarrow> Inl e
      | Inr w \<Rightarrow> Inr \<lparr>results_file = f, previous_state = w, alerts = []\<rparr>)"

definition save_result :: "WebsiteMonitor \<Rightarrow> MonitoringResult \<Rightarrow> WebsiteMonitor" where
  "save_result m r =
     m\<lparr>results_file := Some (stored (results_file m) @ [MonitoringResult_model_dump r])\<rparr>"

definition send_alert :: "WebsiteMonitor \<Rightarrow> string list \<Rightarrow> ProductMonitor \<Rightarrow> string \<Rightarrow> WebsiteMonitor" where
  "send_alert m chs product u = m\<lparr>alerts := alerts m @ [(chs, product, u)]\<rparr>"

text \<open>
  One iteration of the loop of \<^verbatim>\<open>monitor_products\<close>. What \<^verbatim>\<open>check_product_page\<close> returned
  for the URL (\<open>None\<close> on a failed check) and the clock reading used for an error result
  come with the URL.
\<close>

type_synonym observation = "string \<times> ProductMonitor option \<times> string"

definition error_result :: "string \<Rightarrow> string \<Rightarrow> MonitoringResult" where
  "error_result u now =
     \<lparr>timestamp = now, url = u, status = ''error'', data = Map.empty, changes = None,
      error_message = Some ''Failed to extract product data''\<rparr>"

definition success_result :: "string \<Rightarrow> ProductMonitor \<Rightarrow> string list \<Rightarrow> MonitoringResult" where
  "success_result u current chs =
     \<lparr>timestamp = last_checked current, url = u, status = result_status chs,
      data = ProductMonitor_model_dump current,
      changes = (if chs \<noteq> [] then Some chs else None), error_message = None\<rparr>"

definition check_one :: "(pyval \<Rightarrow> string) \<Rightarrow> WebsiteMonitor \<Rightarrow> observation \<Rightarrow> py_error + WebsiteMonitor" where
  "check_one py_str m ob =
     (case ob of (u, fetched, now) \<Rightarrow>
        (case fetched of
           Some current \<Rightarrow>
             (case detect_changes py_str u current (previous_state m (PStr u)) of
                Inl e \<Rightarrow> Inl e
              | Inr chs \<Rightarrow>
                  (let result = success_result u current chs;
                       m1 = (if length chs > 1 then send_alert m chs current u else m);
                       m2 = save_result m1 result
                   in Inr (m2\<lparr>previous_state :=
                                (previous_state m2)(PStr u \<mapsto> MonitoringResult_model_dump result)\<rparr>)))
         | None \<Rightarrow> Inr (save_result m (error_result u now))))"

fun monitor_products :: "(pyval \<Rightarrow> string) \<Rightarrow> WebsiteMonitor \<Rightarrow> observation list \<Rightarrow> py_error + WebsiteMonitor" where
  "monitor_products py_str m [] = Inr m"
| "monitor_products py_str m (ob # obs) =
     (case check_one py_str m ob of
        Inl e \<Rightarrow> Inl e
      | Inr m' \<Rightarrow> monitor_products py_str m' obs)"

text \<open>The loop of \<^verbatim>\<open>scheduled_monitoring\<close>, one call of \<^verbatim>\<open>monitor_products\<close> on the same
  monitor per tick (the reports and the sleep between ticks change no state).\<close>

fun monitoring_runs :: "(pyval \<Rightarrow> string) \<Rightarrow> WebsiteMonitor \<Rightarrow> observation list list \<Rightarrow> py_error + WebsiteMonitor" where
  "monitoring_runs py_str m [] = Inr m"
| "monitoring_runs py_str m (tick # ticks) =
     (case monitor_products py_str m tick of
        Inl e \<Rightarrow> Inl e
      | Inr m' \<Rightarrow> monitoring_runs py_str m' ticks)"

section \<open>The report\<close>

text \<open>The report is the list of its lines, each carrying the values printed in it.\<close>

datatype report_line =
    NoData
  | Rule
  | Title
  | TotalChecks nat
  | ProductsMonitored nat
  | StatusBreakdown
  | SuccessfulChecks nat
  | ChangesDetected nat
  | Errors nat
  | RecentChanges nat
  | Timestamp pyval
  | Url pyval
  | Bullet pyval

fun collect :: "('a \<Rightarrow> py_error + 'b) \<Rightarrow> 'a list \<Rightarrow> py_error + 'b list" where
  "collect f [] = Inr []"
| "collect f (x # xs) =
     (case f x of
        Inl e \<Rightarrow> Inl e
      | Inr y \<Rightarrow> (case collect f xs of Inl e \<Rightarrow> Inl e | Inr ys \<Rightarrow> Inr (y # ys)))"

definition item :: "string \<Rightarrow> pydict \<Rightarrow> py_error + pyval" where
  "item k r = (case r k of None \<Rightarrow> Inl KeyError | Some v \<Rightarrow> Inr v)"

definition url_key :: "pydict \<Rightarrow> py_error + pyval" where
  "url_key r = (case r ''url'' of None \<Rightarrow> Inl KeyError | Some v \<Rightarrow> hashkey v)"

definition has_changes :: "pydict \<Rightarrow> bool" where
  "has_changes r = (case r ''changes'' of None \<Rightarrow> False | Some v \<Rightarrow> truthy v)"

definition entry_lines :: "pydict \<Rightarrow> py_error + report_line list" where
  "entry_lines r =
     (case item ''timestamp'' r of
        Inl e \<Rightarrow> Inl e
      | Inr t \<Rightarrow>
          (case item ''url'' r of
             Inl e \<Rightarrow> Inl e
           | Inr u \<Rightarrow>
               (case item ''changes'' r of
                  Inl e \<Rightarrow> Inl e
                | Inr c \<Rightarrow>
                    (case first3 c of
                       Inl e \<Rightarrow> Inl e
                     | Inr cs \<Rightarrow> Inr ([Timestamp t, Url u] @ map Bullet cs)))))"

definition generate_report :: "pydict list option \<Rightarrow> py_error + report_line list" where
  "generate_report f =
     (case f of
        None \<Rightarrow> Inr [NoData]
      | Some results \<Rightarrow>
          (case collect url_key results of
             Inl e \<Rightarrow> Inl e
           | Inr urls \<Rightarrow>
               (case collect (item ''status'') results of
                  Inl e \<Rightarrow> Inl e
                | Inr sts \<Rightarrow>
                    (let successes = length (filter (\<lambda>v. v = PStr ''success'') sts);
                         changed = length (filter (\<lambda>v. v = PStr ''changed'') sts);
                         errors = length (filter (\<lambda>v. v = PStr ''error'') sts);
                         recent_changes = filter has_changes (last_n 20 results)
                     in (case collect entry_lines (last_n 5 recent_changes) of
                           Inl e \<Rightarrow> Inl e
                         | Inr shown \<Rightarrow>
                             Inr ([Rule, Title, Rule, TotalChecks (length results),
                                   ProductsMonitored (length (remdups urls)),
                                   StatusBreakdown, SuccessfulChecks successes,
                                   ChangesDetected changed, Errors errors]
                                  @ (if recent_changes \<noteq> [] then
                                       RecentChanges (length recent_changes) # concat shown
                                     else [])
                                  @ [Rule]))))))"

section \<open>Predicates used in the statements\<close>

text \<open>
  The previous results \<^verbatim>\<open>detect_changes\<close> can read without raising: no previous result, one
  without a \<^verbatim>\<open>data\<close> key, or one whose \<^verbatim>\<open>data\<close> is a dict with no price or a numeric
  one.
\<close>

definition readable :: "pydict option \<Rightarrow> bool" where
  "readable previous =
     (case previous of
        None \<Rightarrow> True
      | Some prev \<Rightarrow>
          (case prev ''data'' of
             None \<Rightarrow> True
           | Some (PDict prev_data) \<Rightarrow>
               (case prev_data ''price'' of None \<Rightarrow> True | Some v \<Rightarrow> as_number v \<noteq> None)
           | Some _ \<Rightarrow> False))"

text \<open>Every entry of \<^verbatim>\<open>previous_state\<close> can be read by \<^verbatim>\<open>detect_changes\<close>.\<close>

definition window_ok :: "(pyval \<Rightarrow> pydict option) \<Rightarrow> bool" where
  "window_ok w = (\<forall>k. readable (w k))"

text \<open>The record stored for an observation: the error result of a failed check, a
  result carrying the fetched product otherwise.\<close>

definition recorded :: "observation \<Rightarrow> pydict \<Rightarrow> bool" where
  "recorded ob r =
     (case ob of (u, fetched, now) \<Rightarrow>
        (case fetched of
           None \<Rightarrow> r = MonitoringResult_model_dump (error_result u now)
         | Some current \<Rightarrow>
             (\<exists>chs. r = MonitoringResult_model_dump (success_result u current chs))))"

text \<open>The last record of a list stored under a key, as \<^verbatim>\<open>url_key\<close> reads it.\<close>

definition latest_for :: "pyval \<Rightarrow> pydict list \<Rightarrow> pydict option" where
  "latest_for k rs =
     (case filter (\<lambda>r. url_key r = Inr k) rs of [] \<Rightarrow> None | x # xs \<Rightarrow> Some (last (x # xs)))"

text \<open>A stored result that lists at least one change, and the lines the report shows
  for it: its timestamp, its URL and its first three changes.\<close>

definition listed :: "MonitoringResult \<Rightarrow> bool" where
  "listed r = (case changes r of None \<Rightarrow> False | Some cs \<Rightarrow> cs \<noteq> [])"

definition shown :: "MonitoringResult \<Rightarrow> report_line list" where
  "shown r =
     [Timestamp (PStr (timestamp r)), Url (PStr (url r))]
     @ map (\<lambda>c. Bullet (PStr c)) (take 3 (case changes r of None \<Rightarrow> [] | Some cs \<Rightarrow> cs))"

text \<open>
  The entry \<open>d\<close> held under key \<open>k\<close> is a record of the file with that URL, and every
  record with that URL stored after it is an error result.
\<close>

definition current_entry :: "pyval \<Rightarrow> pydict \<Rightarrow> pydict list \<Rightarrow> bool" where
  "current_entry k d records =
     (\<exists>pre post. records = pre @ d # post \<and> url_key d = Inr k
        \<and> (\<forall>r\<in>set post. url_key r = Inr k \<longrightarrow> r ''status'' = Some (PStr ''error'')))"

text \<open>Every entry of \<^verbatim>\<open>previous_state\<close> is such an entry of the results file.\<close>

definition window_inv :: "WebsiteMonitor \<Rightarrow> bool" where
  "window_inv m =
     (\<forall>k d. previous_state m k = Some d \<longrightarrow> current_entry k d (stored (results_file m)))"

section \<open>Example data\<close>

text \<open>In the runs evaluated below every stored name is a string or missing, so the
  interpreter's printer of other values is never called; \<open>no_str\<close> stands in for it.\<close>

definition no_str :: "pyval \<Rightarrow> string" where
  "no_str v = []"

text \<open>The observations of target A in the scenario of the specification: price 10 at
  the first tick, price 8 at the second.\<close>

definition product_A1 :: ProductMonitor where
  "product_A1 = \<lparr>name = ''X'', price = 10, in_stock = True, last_checked = ''t1''\<rparr>"

definition product_A2 :: ProductMonitor where
  "product_A2 = \<lparr>name = ''X'', price = 8, in_stock = True, last_checked = ''t2''\<rparr>"

text \<open>A monitor started with no results file, and the two ticks of the scenario: A
  observed and B failing, then A observed at a lower price.\<close>

definition fresh :: WebsiteMonitor where
  "fresh = \<lparr>results_file = None, previous_state = Map.empty, alerts = []\<rparr>"

definition tick1 :: "observation list" where
  "tick1 = [(''A'', Some product_A1, ''t1''), (''B'', None, ''t1'')]"

definition tick2 :: "observation list" where
  "tick2 = [(''A'', Some product_A2, ''t2'')]"

definition price_drop :: string where
  "price_drop = ''Price decreased from $10.00 to $8.00 ($2.00)''"

text \<open>A target seen in the log, then ten checks of another one.\<close>

definition evicting_log :: "MonitoringResult list" where
  "evicting_log = success_result ''A'' product_A1 [first_time] # replicate 10 (error_result ''B'' ''t1'')"

text \<open>A first observation of A followed by twenty failed checks of B.\<close>

definition long_log :: "MonitoringResult list" where
  "long_log = success_result ''A'' product_A1 [first_time] # replicate 20 (error_result ''B'' ''t1'')"

section \<open>Evaluation\<close>

lemmas detect_eval = detect_changes_def price_check_def stock_check_def name_check_def
  ne_num_def ne_str_def get_default_def first_time_def Let_def

lemma fmt2_values:
  "fmt2 0 = ''0.00''" "fmt2 2 = ''2.00''" "fmt2 5 = ''5.00''" "fmt2 8 = ''8.00''"
  "fmt2 10 = ''10.00''" "fmt2 (2499 / 100) = ''24.99''" "fmt2 (2999 / 100) = ''29.99''"
  by code_simp+

section \<open>Properties of detect\_changes\<close>

lemma price_check_shape:
  "price_check current prev_data = Inr cs \<Longrightarrow>
     first_time \<notin> set cs \<and> length cs \<le> 1 \<and> (\<forall>c\<in>set cs. take 6 c = ''Price '')"
  by (auto simp: price_check_def first_time_def Let_def split: if_splits option.splits)

lemma stock_check_shape:
  "first_time \<notin> set (stock_check current prev_data)
   \<and> length (stock_check current prev_data) \<le> 1
   \<and> (\<forall>c\<in>set (stock_check current prev_data). take 6 c = ''Stock '')"
  by (simp add: stock_check_def first_time_def)

lemma name_check_shape:
  "first_time \<notin> set (name_check py_str current prev_data)
   \<and> length (name_check py_str current prev_data) \<le> 1
   \<and> (\<forall>c\<in>set (name_check py_str current prev_data). take 6 c = ''Produc'')"
  by (simp add: name_check_def first_time_def)

lemma price_check_total:
  "(\<exists>cs. price_check current prev_data = Inr cs)
   = (case prev_data ''price'' of None \<Rightarrow> True | Some v \<Rightarrow> as_number v \<noteq> None)"
  by (auto simp: price_check_def ne_num_def get_default_def Let_def split: option.splits)

lemma detect_changes_returns:
  "(\<exists>chs. detect_changes py_str u current previous = Inr chs) = readable previous"
proof (cases previous)
  case None
  then show ?thesis by (simp add: detect_changes_def readable_def)
next
  case (Some prev)
  show ?thesis
  proof (cases "prev ''data''")
    case None
    with Some show ?thesis by (simp add: detect_changes_def readable_def)
  next
    case (Some v)
    have ne: "prev \<noteq> Map.empty" using Some by auto
    show ?thesis
    proof (cases v)
      case (PDict prev_data)
      have "(\<exists>chs. detect_changes py_str u current previous = Inr chs)
            = (\<exists>cs. price_check current prev_data = Inr cs)"
        using \<open>previous = Some prev\<close> Some PDict ne
        by (cases "price_check current prev_data") (simp_all add: detect_changes_def)
      then show ?thesis
        using \<open>previous = Some prev\<close> Some PDict
        by (simp add: price_check_total readable_def)
    qed (use \<open>previous = Some prev\<close> Some ne in \<open>simp_all add: detect_changes_def readable_def\<close>)
  qed
qed

lemma detect_changes_fields:
  assumes "detect_changes py_str u current previous = Inr chs" and "chs \<noteq> [first_time]"
  obtains prev prev_data c1 where "previous = Some prev" and "prev ''data'' = Some (PDict prev_data)"
    and "price_check current prev_data = Inr c1"
    and "chs = c1 @ stock_check current prev_data @ name_check py_str current prev_data"
  using assms
  by (auto simp: detect_changes_def split: option.splits pyval.splits sum.splits if_splits)

lemma detect_A2_after_A1:
  "detect_changes no_str ''A'' product_A2
     (Some (MonitoringResult_model_dump (success_result ''A'' product_A1 [first_time])))
   = Inr [''Price decreased from $10.00 to $8.00 ($2.00)'']"
  by (simp add: detect_eval fmt2_values MonitoringResult_model_dump_def success_result_def
      ProductMonitor_model_dump_def product_A1_def product_A2_def)

lemma one_per_field:
  assumes "length a \<le> 1" and "length b \<le> 1" and "length c \<le> 1"
    and "\<forall>x\<in>set a. f x = pa" and "\<forall>x\<in>set b. f x = pb" and "\<forall>x\<in>set c. f x = pc"
    and "pa \<noteq> pb" and "pa \<noteq> pc" and "pb \<noteq> pc"
  shows "length (filter (\<lambda>x. f x = p) (a @ b @ c)) \<le> 1"
proof -
  have s: "xs = [] \<or> (\<exists>x. xs = [x])" if "length xs \<le> 1" for xs :: "'a list"
    using that by (cases xs) auto
  from s [OF assms(1)] s [OF assms(2)] s [OF assms(3)] assms(4-9)
  show ?thesis by auto
qed

text \<open>
  C10. Whatever \<^verbatim>\<open>detect_changes\<close> returns is either the list holding only the
  first-time sentence, or a list of at most three entries none of which is that
  sentence; it holds at most one price sentence, one stock sentence and one name
  sentence. It returns (raises nothing) exactly on a readable previous result.
\<close>

theorem detect_changes_sentinel_alone:
  "(detect_changes py_str u current previous = Inr chs \<longrightarrow>
      (chs = [first_time] \<or> (first_time \<notin> set chs \<and> length chs \<le> 3))
      \<and> length (filter (\<lambda>c. take 6 c = ''Price '') chs) \<le> 1
      \<and> length (filter (\<lambda>c. take 6 c = ''Stock '') chs) \<le> 1
      \<and> length (filter (\<lambda>c. take 6 c = ''Produc'') chs) \<le> 1)
   \<and> ((\<exists>cs. detect_changes py_str u current previous = Inr cs) = readable previous)"
proof
  show "detect_changes py_str u current previous = Inr chs \<longrightarrow>
      (chs = [first_time] \<or> (first_time \<notin> set chs \<and> length chs \<le> 3))
      \<and> length (filter (\<lambda>c. take 6 c = ''Price '') chs) \<le> 1
      \<and> length (filter (\<lambda>c. take 6 c = ''Stock '') chs) \<le> 1
      \<and> length (filter (\<lambda>c. take 6 c = ''Produc'') chs) \<le> 1"
  proof
    assume a: "detect_changes py_str u current previous = Inr chs"
    show "(chs = [first_time] \<or> (first_time \<notin> set chs \<and> length chs \<le> 3))
      \<and> length (filter (\<lambda>c. take 6 c = ''Price '') chs) \<le> 1
      \<and> length (filter (\<lambda>c. take 6 c = ''Stock '') chs) \<le> 1
      \<and> length (filter (\<lambda>c. take 6 c = ''Produc'') chs) \<le> 1"
    proof (cases "chs = [first_time]")
      case True
      then show ?thesis by (simp add: first_time_def)
    next
      case False
      with a obtain prev prev_data c1 where
        p: "price_check current prev_data = Inr c1"
        and c: "chs = c1 @ stock_check current prev_data @ name_check py_str current prev_data"
        by (rule detect_changes_fields)
      note sh = price_check_shape [OF p] stock_check_shape [of current prev_data]
        name_check_shape [of py_str current prev_data]
      have n: "length (filter (\<lambda>c. take 6 c = q) chs) \<le> 1" for q
        unfolding c using sh
        by (intro one_per_field [where f = "take 6" and pa = "''Price ''" and pb = "''Stock ''"
              and pc = "''Produc''"]) simp_all
      from sh c have "first_time \<notin> set chs \<and> length chs \<le> 3" by simp
      with n show ?thesis by simp
    qed
  qed
next
  show "(\<exists>cs. detect_changes py_str u current previous = Inr cs) = readable previous"
    by (rule detect_changes_returns)
qed

theorem detect_changes_sentinel_alone_witness:
  "detect_changes no_str ''A'' product_A2
     (Some (MonitoringResult_model_dump (success_result ''A'' product_A1 [first_time])))
   = Inr [''Price decreased from $10.00 to $8.00 ($2.00)'']
   \<and> first_time \<notin> set [''Price decreased from $10.00 to $8.00 ($2.00)'']
   \<and> length [''Price decreased from $10.00 to $8.00 ($2.00)''] \<le> 3"
  using detect_changes_sentinel_alone [THEN conjunct1, rule_format, OF detect_A2_after_A1]
    detect_A2_after_A1
  by (simp add: first_time_def)





lemma init_None: "init None = Inr fresh"
  by (simp add: init_def load_previous_state_def fresh_def)

lemma detect_A1_fresh: "detect_changes no_str ''A'' product_A1 None = Inr [first_time]"
  by (simp add: detect_changes_def)

lemma tick1_run:
  "monitor_products no_str fresh tick1 =
     Inr \<lparr>results_file = Some [MonitoringResult_model_dump (success_result ''A'' product_A1 [first_time]),
                               MonitoringResult_model_dump (error_result ''B'' ''t1'')],
          previous_state = [PStr ''A'' \<mapsto> MonitoringResult_model_dump (success_result ''A'' product_A1 [first_time])],
          alerts = []\<rparr>"
  by (simp add: tick1_def fresh_def check_one_def detect_A1_fresh save_result_def stored_def Let_def)

lemma tick2_run:
  "monitor_products no_str
      \<lparr>results_file = Some [MonitoringResult_model_dump (success_result ''A'' product_A1 [first_time]),
                               MonitoringResult_model_dump (error_result ''B'' ''t1'')],
          previous_state = [PStr ''A'' \<mapsto> MonitoringResult_model_dump (success_result ''A'' product_A1 [first_time])],
          alerts = []\<rparr> tick2 =
     Inr \<lparr>results_file = Some [MonitoringResult_model_dump (success_result ''A'' product_A1 [first_time]),
                               MonitoringResult_model_dump (error_result ''B'' ''t1''),
                               MonitoringResult_model_dump (success_result ''A'' product_A2 [price_drop])],
          previous_state = [PStr ''A'' \<mapsto> MonitoringResult_model_dump (success_result ''A'' product_A2 [price_drop])],
          alerts = []\<rparr>"
  by (simp add: tick2_def check_one_def detect_A2_after_A1 price_drop_def save_result_def stored_def Let_def)

section \<open>A single change\<close>

text \<open>
  C1. The claim holds of the intent the source states (\<^verbatim>\<open>Send alert if significant changes
  detected\<close>, \<^verbatim>\<open>More than just "first time monitoring"\<close>) and fails on the code, which
  counts entries instead of looking for the first-time sentence. In the scenario, the
  second tick finds only the price of A changed: the list is the one price sentence,
  the stored status is \<^verbatim>\<open>success\<close> and \<^verbatim>\<open>send_alert\<close> is never called.
\<close>

theorem single_price_change_not_alerted:
  "monitoring_runs no_str fresh [tick1, tick2] =
     Inr \<lparr>results_file = Some [MonitoringResult_model_dump (success_result ''A'' product_A1 [first_time]),
                               MonitoringResult_model_dump (error_result ''B'' ''t1''),
                               MonitoringResult_model_dump (success_result ''A'' product_A2 [price_drop])],
          previous_state = [PStr ''A'' \<mapsto> MonitoringResult_model_dump (success_result ''A'' product_A2 [price_drop])],
          alerts = []\<rparr>
   \<and> status (success_result ''A'' product_A2 [price_drop]) = ''success''
   \<and> changes (success_result ''A'' product_A2 [price_drop]) = Some [price_drop]"
proof -
  have "monitoring_runs no_str fresh [tick1, tick2] =
     Inr \<lparr>results_file = Some [MonitoringResult_model_dump (success_result ''A'' product_A1 [first_time]),
                               MonitoringResult_model_dump (error_result ''B'' ''t1''),
                               MonitoringResult_model_dump (success_result ''A'' product_A2 [price_drop])],
          previous_state = [PStr ''A'' \<mapsto> MonitoringResult_model_dump (success_result ''A'' product_A2 [price_drop])],
          alerts = []\<rparr>"
    by (simp only: monitoring_runs.simps tick1_run tick2_run sum.case)
  then show ?thesis
    by (simp add: success_result_def result_status_def)
qed

section \<open>Fields compared\<close>




section \<open>The results file\<close>

lemma stored_save_result:
  "stored (results_file (save_result m r)) = stored (results_file m) @ [MonitoringResult_model_dump r]"
  by (simp add: save_result_def stored_def)

lemma save_result_others:
  "previous_state (save_result m r) = previous_state m" "alerts (save_result m r) = alerts m"
  by (simp_all add: save_result_def)

lemma stored_foldl_save_result:
  "stored (results_file (foldl save_result m rs))
   = stored (results_file m) @ map MonitoringResult_model_dump rs"
  by (induction rs arbitrary: m) (simp_all add: stored_save_result)

lemma model_dump_inj:
  assumes "MonitoringResult_model_dump r = MonitoringResult_model_dump r'"
  shows "r = r'"
proof -
  have k: "MonitoringResult_model_dump r k = MonitoringResult_model_dump r' k" for k
    using assms by simp
  have "timestamp r = timestamp r'" using k[of "''timestamp''"]
    by (simp add: MonitoringResult_model_dump_def)
  moreover have "url r = url r'" using k[of "''url''"]
    by (simp add: MonitoringResult_model_dump_def)
  moreover have "status r = status r'" using k[of "''status''"]
    by (simp add: MonitoringResult_model_dump_def)
  moreover have "data r = data r'" using k[of "''data''"]
    by (simp add: MonitoringResult_model_dump_def)
  moreover have "changes r = changes r'" using k[of "''changes''"]
    by (auto simp: MonitoringResult_model_dump_def inj_map_eq_map inj_on_def split: option.splits)
  moreover have "error_message r = error_message r'" using k[of "''error_message''"]
    by (auto simp: MonitoringResult_model_dump_def split: option.splits)
  ultimately show ?thesis by simp
qed

text \<open>
  C9. Saving the results \<open>rs\<close> one after the other, whatever the file held (or with no
  file), leaves a file that reads back as the old contents followed by the dumps of
  \<open>rs\<close> in order; a dump determines the result it came from.
\<close>

theorem append_then_load:
  "stored (results_file (foldl save_result m rs))
     = stored (results_file m) @ map MonitoringResult_model_dump rs
   \<and> (rs \<noteq> [] \<longrightarrow> results_file (foldl save_result m rs)
         = Some (stored (results_file m) @ map MonitoringResult_model_dump rs))
   \<and> inj MonitoringResult_model_dump"
proof -
  have a: "stored (results_file (foldl save_result m rs))
     = stored (results_file m) @ map MonitoringResult_model_dump rs"
    by (rule stored_foldl_save_result)
  have "results_file (foldl save_result m rs) \<noteq> None" if "rs \<noteq> []"
    using that by (induction rs arbitrary: m rule: rev_induct) (simp_all add: save_result_def)
  with a have b: "rs \<noteq> [] \<longrightarrow> results_file (foldl save_result m rs)
         = Some (stored (results_file m) @ map MonitoringResult_model_dump rs)"
    by (auto simp: stored_def split: option.splits)
  have c: "inj MonitoringResult_model_dump"
    by (rule injI) (rule model_dump_inj)
  from a b c show ?thesis by blast
qed

theorem append_then_load_witness:
  "results_file (foldl save_result fresh
      [success_result ''A'' product_A1 [first_time], error_result ''B'' ''t1''])
   = Some [MonitoringResult_model_dump (success_result ''A'' product_A1 [first_time]),
           MonitoringResult_model_dump (error_result ''B'' ''t1'')]"
  using append_then_load [of fresh "[success_result ''A'' product_A1 [first_time], error_result ''B'' ''t1'']"]
  by (simp add: fresh_def stored_def)

section \<open>Failed checks\<close>

lemma readable_success_result:
  "readable (Some (MonitoringResult_model_dump (success_result u current chs)))"
  by (simp add: readable_def MonitoringResult_model_dump_def success_result_def
      ProductMonitor_model_dump_def)


lemma check_one_failed:
  "check_one py_str m (u, None, now) = Inr (save_result m (error_result u now))"
  by (simp add: check_one_def)





section \<open>Loading the previous state\<close>

lemma last_n_map: "last_n n (map f xs) = map f (last_n n xs)"
  by (simp add: last_n_def drop_map)

lemma last_n_length: "length (last_n n xs) \<le> n"
  by (simp add: last_n_def)

lemma set_last_n: "set (last_n n xs) \<subseteq> set xs"
  by (simp add: last_n_def set_drop_subset)

lemma last_n_idem: "last_n n (last_n n xs) = last_n n xs"
  by (simp add: last_n_def)

lemma url_key_model_dump: "url_key (MonitoringResult_model_dump r) = Inr (PStr (url r))"
  by (simp add: url_key_def MonitoringResult_model_dump_def)

lemma latest_for_Cons:
  "latest_for k (r # rs) =
     (case latest_for k rs of
        None \<Rightarrow> if url_key r = Inr k then Some r else None
      | Some x \<Rightarrow> Some x)"
  by (simp add: latest_for_def split: list.splits)

lemma latest_for_Nil: "latest_for k [] = None"
  by (simp add: latest_for_def)

lemma by_url_latest:
  "by_url rs w0 = Inr w \<Longrightarrow> w k = (case latest_for k rs of None \<Rightarrow> w0 k | Some r \<Rightarrow> Some r)"
proof (induction rs arbitrary: w0)
  case Nil
  then show ?case by (simp add: latest_for_def)
next
  case (Cons r rs)
  from Cons.prems obtain v k' where v: "r ''url'' = Some v" "hashkey v = Inr k'"
    and b: "by_url rs (w0(k' \<mapsto> r)) = Inr w"
    by (auto split: option.splits sum.splits)
  have u: "url_key r = Inr k'" using v by (simp add: url_key_def)
  from Cons.IH [OF b] show ?case
    using u by (auto simp: latest_for_Cons split: option.splits)
qed

lemma by_url_persisted:
  "\<exists>w. by_url (map MonitoringResult_model_dump rs) w0 = Inr w"
proof (induction rs arbitrary: w0)
  case Nil
  then show ?case by simp
next
  case (Cons r rs)
  have "MonitoringResult_model_dump r ''url'' = Some (PStr (url r))"
    by (simp add: MonitoringResult_model_dump_def)
  then show ?case using Cons.IH by simp
qed

lemma latest_for_dom:
  "{k. latest_for k rs \<noteq> None} = {k. \<exists>r\<in>set rs. url_key r = Inr k}"
  by (auto simp: latest_for_def filter_empty_conv split: list.splits)

lemma keys_model_dump:
  "{k. \<exists>r\<in>set (map MonitoringResult_model_dump rs). url_key r = Inr k} = PStr ` url ` set rs"
  by (auto simp: url_key_model_dump)

text \<open>
  C8. For the file of any results saved by the monitor, \<^verbatim>\<open>load_previous_state\<close> returns a
  dict that is the one built from the last ten records alone; under each key it holds
  the last of those ten records with that URL; and it has at most ten keys and at most
  as many as there are distinct URLs in the whole file.
\<close>

theorem load_previous_state_window:
  "\<exists>w. load_previous_state (Some (map MonitoringResult_model_dump rs)) = Inr w
      \<and> load_previous_state (Some (last_n 10 (map MonitoringResult_model_dump rs))) = Inr w
      \<and> (\<forall>k. w k = latest_for k (last_n 10 (map MonitoringResult_model_dump rs)))
      \<and> finite (dom w)
      \<and> card (dom w) \<le> min 10 (card (url ` set rs))"
proof -
  let ?tail = "last_n 10 rs"
  obtain w where w: "by_url (map MonitoringResult_model_dump ?tail) Map.empty = Inr w"
    using by_url_persisted by blast
  have l: "w k = latest_for k (map MonitoringResult_model_dump ?tail)" for k
    using by_url_latest [OF w, of k] by (simp split: option.splits)
  have "dom w = {k. latest_for k (map MonitoringResult_model_dump ?tail) \<noteq> None}"
    using l by (auto simp: dom_def)
  then have d: "dom w = PStr ` url ` set ?tail"
    by (simp only: latest_for_dom keys_model_dump)
  have f: "finite (dom w)" by (simp add: d)
  have "card (dom w) \<le> card (set ?tail)"
    unfolding d by (meson List.finite_set card_image_le finite_imageI le_trans)
  also have "\<dots> \<le> length ?tail" by (rule card_length)
  also have "\<dots> \<le> 10" by (rule last_n_length)
  finally have c1: "card (dom w) \<le> 10" .
  have "dom w \<subseteq> PStr ` url ` set rs"
    unfolding d using set_last_n [of 10 rs] by blast
  then have "card (dom w) \<le> card (PStr ` url ` set rs)"
    by (simp add: card_mono)
  also have "\<dots> = card (url ` set rs)"
    by (rule card_image) (simp add: inj_on_def)
  finally have c2: "card (dom w) \<le> card (url ` set rs)" .
  have "load_previous_state (Some (map MonitoringResult_model_dump rs)) = Inr w"
    using w by (simp add: load_previous_state_def last_n_map)
  moreover have "load_previous_state (Some (last_n 10 (map MonitoringResult_model_dump rs))) = Inr w"
    using w by (simp add: load_previous_state_def last_n_map last_n_idem)
  ultimately show ?thesis
    using l f c1 c2 by (auto simp: last_n_map)
qed

theorem load_previous_state_window_witness:
  "projr (load_previous_state (Some (map MonitoringResult_model_dump evicting_log))) (PStr ''A'') = None
   \<and> projr (load_previous_state (Some (map MonitoringResult_model_dump evicting_log))) (PStr ''B'')
       = Some (MonitoringResult_model_dump (error_result ''B'' ''t1''))"
proof -
  from load_previous_state_window [of evicting_log]
  obtain w where w: "load_previous_state (Some (map MonitoringResult_model_dump evicting_log)) = Inr w"
    and l: "\<forall>k. w k = latest_for k (last_n 10 (map MonitoringResult_model_dump evicting_log))"
    by blast
  have t: "last_n 10 (map MonitoringResult_model_dump evicting_log)
           = replicate 10 (MonitoringResult_model_dump (error_result ''B'' ''t1''))"
    by (simp add: last_n_def evicting_log_def)
  have kb: "url_key (MonitoringResult_model_dump (error_result ''B'' ''t1'')) = Inr (PStr ''B'')"
    by (simp add: url_key_model_dump error_result_def)
  have e: "latest_for k (replicate 10 (MonitoringResult_model_dump (error_result ''B'' ''t1'')))
           = (if k = PStr ''B'' then Some (MonitoringResult_model_dump (error_result ''B'' ''t1'')) else None)" for k
    by (auto simp: eval_nat_numeral latest_for_Cons latest_for_Nil kb)
  have "w (PStr ''A'') = None"
    using l by (simp only: t e) simp
  moreover have "w (PStr ''B'') = Some (MonitoringResult_model_dump (error_result ''B'' ''t1''))"
    using l by (simp only: t e) simp
  ultimately show ?thesis using w by simp
qed

section \<open>The report of a results file\<close>

lemma collect_map:
  "(\<And>x. x \<in> set xs \<Longrightarrow> f (g x) = Inr (h x)) \<Longrightarrow> collect f (map g xs) = Inr (map h xs)"
  by (induction xs) simp_all

lemma has_changes_model_dump: "has_changes (MonitoringResult_model_dump r) = listed r"
  by (simp add: has_changes_def listed_def MonitoringResult_model_dump_def split: option.splits)

lemma entry_lines_model_dump:
  "listed r \<Longrightarrow> entry_lines (MonitoringResult_model_dump r) = Inr (shown r)"
  by (auto simp: entry_lines_def item_def listed_def shown_def MonitoringResult_model_dump_def
      take_map split: option.splits)

lemma count_status:
  "length (filter (\<lambda>v. v = PStr s) (map (\<lambda>r. PStr (status r)) rs))
   = length (filter (\<lambda>r. status r = s) rs)"
  by (induction rs) simp_all

lemma count_urls: "length (remdups (map (\<lambda>r. PStr (url r)) rs)) = card (url ` set rs)"
proof -
  have "length (remdups (map (\<lambda>r. PStr (url r)) rs)) = card (PStr ` url ` set rs)"
    by (simp add: length_remdups_card_conv image_image)
  also have "\<dots> = card (url ` set rs)"
    by (rule card_image) (simp add: inj_on_def)
  finally show ?thesis .
qed

lemma card_urls: "card (url ` set rs) = length (remdups (map url rs))"
  by (simp add: length_remdups_card_conv)

lemma generate_report_persisted:
  "generate_report (Some (map MonitoringResult_model_dump rs)) =
     Inr ([Rule, Title, Rule, TotalChecks (length rs), ProductsMonitored (card (url ` set rs)),
           StatusBreakdown,
           SuccessfulChecks (length (filter (\<lambda>r. status r = ''success'') rs)),
           ChangesDetected (length (filter (\<lambda>r. status r = ''changed'') rs)),
           Errors (length (filter (\<lambda>r. status r = ''error'') rs))]
          @ (if filter listed (last_n 20 rs) \<noteq> [] then
               RecentChanges (length (filter listed (last_n 20 rs)))
               # concat (map shown (last_n 5 (filter listed (last_n 20 rs))))
             else [])
          @ [Rule])"
proof -
  let ?log = "map MonitoringResult_model_dump rs"
  let ?recent = "filter listed (last_n 20 rs)"
  have u: "collect url_key ?log = Inr (map (\<lambda>r. PStr (url r)) rs)"
    by (rule collect_map) (rule url_key_model_dump)
  have s: "collect (item ''status'') ?log = Inr (map (\<lambda>r. PStr (status r)) rs)"
    by (rule collect_map) (simp add: item_def MonitoringResult_model_dump_def)
  have r: "filter has_changes (last_n 20 ?log) = map MonitoringResult_model_dump ?recent"
    by (simp add: last_n_map filter_map comp_def has_changes_model_dump)
  have "\<And>x. x \<in> set (last_n 5 ?recent) \<Longrightarrow> listed x"
    using set_last_n [of 5 ?recent] by auto
  then have "collect entry_lines (map MonitoringResult_model_dump (last_n 5 ?recent))
             = Inr (map shown (last_n 5 ?recent))"
    by (intro collect_map entry_lines_model_dump)
  then have e: "collect entry_lines (last_n 5 (map MonitoringResult_model_dump ?recent))
             = Inr (map shown (last_n 5 ?recent))"
    by (simp only: last_n_map)
  have "generate_report (Some ?log) =
     Inr ([Rule, Title, Rule, TotalChecks (length ?log),
           ProductsMonitored (length (remdups (map (\<lambda>r. PStr (url r)) rs))),
           StatusBreakdown,
           SuccessfulChecks (length (filter (\<lambda>v. v = PStr ''success'') (map (\<lambda>r. PStr (status r)) rs))),
           ChangesDetected (length (filter (\<lambda>v. v = PStr ''changed'') (map (\<lambda>r. PStr (status r)) rs))),
           Errors (length (filter (\<lambda>v. v = PStr ''error'') (map (\<lambda>r. PStr (status r)) rs)))]
          @ (if map MonitoringResult_model_dump ?recent \<noteq> [] then
               RecentChanges (length (map MonitoringResult_model_dump ?recent))
               # concat (map shown (last_n 5 ?recent))
             else [])
          @ [Rule])"
    by (simp only: generate_report_def option.case u s sum.case r e Let_def)
  then show ?thesis
    by (simp only: count_status count_urls length_map map_is_Nil_conv)
qed

lemma scenario_log:
  "monitoring_runs no_str fresh [tick1, tick2] =
     Inr \<lparr>results_file = Some (map MonitoringResult_model_dump
              [success_result ''A'' product_A1 [first_time], error_result ''B'' ''t1'',
               success_result ''A'' product_A2 [price_drop]]),
          previous_state = [PStr ''A'' \<mapsto> MonitoringResult_model_dump (success_result ''A'' product_A2 [price_drop])],
          alerts = []\<rparr>"
  by (simp only: monitoring_runs.simps tick1_run tick2_run sum.case list.map)

lemma scenario_report:
  "generate_report (Some (map MonitoringResult_model_dump
              [success_result ''A'' product_A1 [first_time], error_result ''B'' ''t1'',
               success_result ''A'' product_A2 [price_drop]])) =
     Inr [Rule, Title, Rule, TotalChecks 3, ProductsMonitored 2, StatusBreakdown,
          SuccessfulChecks 2, ChangesDetected 0, Errors 1, RecentChanges 2,
          Timestamp (PStr ''t1''), Url (PStr ''A''), Bullet (PStr first_time),
          Timestamp (PStr ''t2''), Url (PStr ''A''), Bullet (PStr price_drop), Rule]"
  unfolding generate_report_persisted card_urls
  by (simp add: success_result_def error_result_def result_status_def last_n_def listed_def
      shown_def product_A1_def product_A2_def)

text \<open>
  C4, as stated, fails. The first record of \<open>long_log\<close> lists a change and is the only
  one to do so, yet the report of that file has no recent-changes part: the report looks
  for changes in the last twenty records only. And the report after the two ticks of the
  scenario counts two successful checks and no change detected, the price change of
  the second tick having been stored as \<^verbatim>\<open>success\<close>.
\<close>

theorem old_changes_counterexample:
  "listed (hd long_log)
   \<and> generate_report (Some (map MonitoringResult_model_dump long_log)) =
       Inr [Rule, Title, Rule, TotalChecks 21, ProductsMonitored 2, StatusBreakdown,
            SuccessfulChecks 1, ChangesDetected 0, Errors 20, Rule]
   \<and> generate_report (results_file (projr (monitoring_runs no_str fresh [tick1, tick2]))) =
       Inr [Rule, Title, Rule, TotalChecks 3, ProductsMonitored 2, StatusBreakdown,
            SuccessfulChecks 2, ChangesDetected 0, Errors 1, RecentChanges 2,
            Timestamp (PStr ''t1''), Url (PStr ''A''), Bullet (PStr first_time),
            Timestamp (PStr ''t2''), Url (PStr ''A''), Bullet (PStr price_drop), Rule]"
proof -
  have a: "listed (hd long_log)"
    by (simp add: long_log_def listed_def success_result_def)
  have t: "last_n 20 long_log = replicate 20 (error_result ''B'' ''t1'')"
    by (simp add: last_n_def long_log_def)
  have n: "\<not> listed (error_result ''B'' ''t1'')"
    by (simp add: listed_def error_result_def)
  have f: "filter listed (last_n 20 long_log) = []"
    unfolding t using n by simp
  have c: "card (url ` set long_log) = 2"
    by (simp add: long_log_def success_result_def error_result_def)
  have st: "length (filter (\<lambda>r. status r = ''success'') long_log) = 1"
    "length (filter (\<lambda>r. status r = ''changed'') long_log) = 0"
    "length (filter (\<lambda>r. status r = ''error'') long_log) = 20"
    by (simp_all add: long_log_def success_result_def error_result_def result_status_def)
  have l: "length long_log = 21" by (simp add: long_log_def)
  have b: "generate_report (Some (map MonitoringResult_model_dump long_log)) =
       Inr [Rule, Title, Rule, TotalChecks 21, ProductsMonitored 2, StatusBreakdown,
            SuccessfulChecks 1, ChangesDetected 0, Errors 20, Rule]"
    unfolding generate_report_persisted f c st l by simp
  have "generate_report (results_file (projr (monitoring_runs no_str fresh [tick1, tick2]))) =
       Inr [Rule, Title, Rule, TotalChecks 3, ProductsMonitored 2, StatusBreakdown,
            SuccessfulChecks 2, ChangesDetected 0, Errors 1, RecentChanges 2,
            Timestamp (PStr ''t1''), Url (PStr ''A''), Bullet (PStr first_time),
            Timestamp (PStr ''t2''), Url (PStr ''A''), Bullet (PStr price_drop), Rule]"
    unfolding scenario_log by (simp only: sum.sel WebsiteMonitor.select_convs scenario_report)
  with a b show ?thesis by blast
qed

text \<open>
  C4, amended. For the file of any saved results the report gives the number of
  results, of distinct URLs and of results of each status; then, if any of the last
  twenty records lists a change, the number of those that do and, for the last five of
  them, the timestamp, the URL and the first three changes. After the two ticks of the
  scenario it shows 3 checks, 2 products and 1 error.
\<close>

theorem generate_report_summary:
  "generate_report (Some (map MonitoringResult_model_dump rs)) =
     Inr ([Rule, Title, Rule, TotalChecks (length rs), ProductsMonitored (card (url ` set rs)),
           StatusBreakdown,
           SuccessfulChecks (length (filter (\<lambda>r. status r = ''success'') rs)),
           ChangesDetected (length (filter (\<lambda>r. status r = ''changed'') rs)),
           Errors (length (filter (\<lambda>r. status r = ''error'') rs))]
          @ (if filter listed (last_n 20 rs) \<noteq> [] then
               RecentChanges (length (filter listed (last_n 20 rs)))
               # concat (map shown (last_n 5 (filter listed (last_n 20 rs))))
             else [])
          @ [Rule])
   \<and> (monitoring_runs no_str fresh [tick1, tick2] = Inr m \<longrightarrow>
        (\<exists>report. generate_report (results_file m) = Inr report
           \<and> TotalChecks 3 \<in> set report \<and> ProductsMonitored 2 \<in> set report
           \<and> Errors 1 \<in> set report))"
proof -
  have "\<exists>report. generate_report (results_file m) = Inr report
           \<and> TotalChecks 3 \<in> set report \<and> ProductsMonitored 2 \<in> set report
           \<and> Errors 1 \<in> set report"
    if "monitoring_runs no_str fresh [tick1, tick2] = Inr m"
  proof -
    from that have "results_file m = Some (map MonitoringResult_model_dump
              [success_result ''A'' product_A1 [first_time], error_result ''B'' ''t1'',
               success_result ''A'' product_A2 [price_drop]])"
      unfolding scenario_log by auto
    then show ?thesis
      by (simp only: scenario_report) simp
  qed
  with generate_report_persisted [of rs] show ?thesis by blast
qed

theorem generate_report_summary_witness:
  "TotalChecks 3 \<in> set (projr (generate_report (results_file (projr (monitoring_runs no_str fresh [tick1, tick2])))))
   \<and> generate_report (Some (map MonitoringResult_model_dump [error_result ''B'' ''t1''])) =
      Inr [Rule, Title, Rule, TotalChecks 1, ProductsMonitored 1, StatusBreakdown,
           SuccessfulChecks 0, ChangesDetected 0, Errors 1, Rule]"
proof -
  let ?m = "projr (monitoring_runs no_str fresh [tick1, tick2])"
  have "monitoring_runs no_str fresh [tick1, tick2] = Inr ?m"
    unfolding scenario_log by simp
  with generate_report_summary [of "[error_result ''B'' ''t1'']" ?m]
  obtain report where "generate_report (results_file ?m) = Inr report" "TotalChecks 3 \<in> set report"
    by blast
  then have a: "TotalChecks 3 \<in> set (projr (generate_report (results_file ?m)))" by simp
  have b: "generate_report (Some (map MonitoringResult_model_dump [error_result ''B'' ''t1''])) =
      Inr [Rule, Title, Rule, TotalChecks 1, ProductsMonitored 1, StatusBreakdown,
           SuccessfulChecks 0, ChangesDetected 0, Errors 1, Rule]"
    using generate_report_summary [of "[error_result ''B'' ''t1'']" ?m, THEN conjunct1]
    by (simp add: error_result_def last_n_def listed_def)
  from a b show ?thesis by blast
qed

section \<open>The previous state and the results file\<close>

lemma latest_for_current:
  assumes "latest_for k rs = Some d"
  shows "current_entry k d rs"
proof -
  let ?P = "\<lambda>r. url_key r = Inr k"
  from assms have ne: "filter ?P rs \<noteq> []" and d: "d = last (filter ?P rs)"
    by (auto simp: latest_for_def split: list.splits)
  from ne have "\<exists>x\<in>set rs. ?P x" by (simp add: filter_empty_conv)
  then obtain pre x post where s: "rs = pre @ x # post" "?P x" "\<forall>z\<in>set post. \<not> ?P z"
    using split_list_last_prop [of rs ?P] by blast
  have "filter ?P post = []" using s(3) by (simp add: filter_empty_conv)
  then have "filter ?P rs = filter ?P pre @ [x]" using s(1,2) by simp
  then have "d = x" using d by simp
  with s show ?thesis unfolding current_entry_def by blast
qed

lemma current_entry_prepend: "current_entry k d rs \<Longrightarrow> current_entry k d (xs @ rs)"
  unfolding current_entry_def
  by (metis append.assoc)

lemma current_entry_append:
  assumes "current_entry k d rs"
    and "url_key r = Inr k \<longrightarrow> r ''status'' = Some (PStr ''error'')"
  shows "current_entry k d (rs @ [r])"
proof -
  from assms(1) obtain pre post where s: "rs = pre @ d # post" "url_key d = Inr k"
    "\<forall>z\<in>set post. url_key z = Inr k \<longrightarrow> z ''status'' = Some (PStr ''error'')"
    unfolding current_entry_def by blast
  have "rs @ [r] = pre @ d # (post @ [r])" using s(1) by simp
  moreover have "\<forall>z\<in>set (post @ [r]). url_key z = Inr k \<longrightarrow> z ''status'' = Some (PStr ''error'')"
    using s(3) assms(2) by auto
  ultimately show ?thesis using s(2) unfolding current_entry_def by blast
qed

lemma current_entry_last: "url_key d = Inr k \<Longrightarrow> current_entry k d (rs @ [d])"
  unfolding current_entry_def by force

lemma last_n_suffix: "\<exists>xs. rs = xs @ last_n n rs"
  unfolding last_n_def by (metis append_take_drop_id)

lemma init_window_inv:
  assumes "init f = Inr m"
  shows "window_inv m"
proof (cases f)
  case None
  with assms show ?thesis
    by (auto simp: init_def load_previous_state_def window_inv_def)
next
  case (Some records)
  with assms obtain w where w: "by_url (last_n 10 records) Map.empty = Inr w"
    and m: "m = \<lparr>results_file = Some records, previous_state = w, alerts = []\<rparr>"
    by (auto simp: init_def load_previous_state_def split: sum.splits)
  show ?thesis
    unfolding window_inv_def
  proof (intro allI impI)
    fix k d
    assume "previous_state m k = Some d"
    then have "w k = Some d" using m by simp
    then have "latest_for k (last_n 10 records) = Some d"
      using by_url_latest [OF w, of k] by (simp split: option.splits)
    then have "current_entry k d (last_n 10 records)" by (rule latest_for_current)
    moreover obtain xs where "records = xs @ last_n 10 records" using last_n_suffix by blast
    ultimately have "current_entry k d records" using current_entry_prepend by metis
    then show "current_entry k d (stored (results_file m))" using m by (simp add: stored_def)
  qed
qed

lemma check_one_fetched:
  assumes "check_one py_str m (u, Some current, now) = Inr m'"
  shows "\<exists>chs. stored (results_file m')
            = stored (results_file m) @ [MonitoringResult_model_dump (success_result u current chs)]
          \<and> previous_state m'
            = (previous_state m)(PStr u \<mapsto> MonitoringResult_model_dump (success_result u current chs))"
  using assms
  by (auto simp: check_one_def Let_def save_result_def send_alert_def stored_def split: sum.splits)

lemma status_success_result:
  "MonitoringResult_model_dump (success_result u current chs) ''status'' \<noteq> Some (PStr ''error'')"
  by (simp add: MonitoringResult_model_dump_def success_result_def result_status_def)

lemma check_one_window_inv:
  assumes "window_inv m" and "check_one py_str m ob = Inr m'"
  shows "window_inv m'"
proof -
  obtain u fetched now where ob: "ob = (u, fetched, now)" by (cases ob)
  show ?thesis
  proof (cases fetched)
    case None
    with assms(2) ob have m': "m' = save_result m (error_result u now)"
      by (simp add: check_one_failed)
    have e: "MonitoringResult_model_dump (error_result u now) ''status'' = Some (PStr ''error'')"
      by (simp add: MonitoringResult_model_dump_def error_result_def)
    show ?thesis
      unfolding window_inv_def m' stored_save_result save_result_others
      using assms(1) e by (auto simp: window_inv_def intro: current_entry_append)
  next
    case (Some current)
    with assms(2) ob obtain chs where
      l: "stored (results_file m')
            = stored (results_file m) @ [MonitoringResult_model_dump (success_result u current chs)]"
      and p: "previous_state m'
            = (previous_state m)(PStr u \<mapsto> MonitoringResult_model_dump (success_result u current chs))"
      using check_one_fetched by blast
    let ?r = "MonitoringResult_model_dump (success_result u current chs)"
    have ku: "url_key ?r = Inr (PStr u)"
      by (simp add: url_key_model_dump success_result_def)
    show ?thesis
      unfolding window_inv_def
    proof (intro allI impI)
      fix k d
      assume a: "previous_state m' k = Some d"
      show "current_entry k d (stored (results_file m'))"
      proof (cases "k = PStr u")
        case True
        with a p have "d = ?r" by simp
        then show ?thesis unfolding l using ku True by (simp add: current_entry_last)
      next
        case False
        with a p have "previous_state m k = Some d" by simp
        then have "current_entry k d (stored (results_file m))"
          using assms(1) by (simp add: window_inv_def)
        moreover have "url_key ?r = Inr k \<longrightarrow> ?r ''status'' = Some (PStr ''error'')"
          using ku False by simp
        ultimately show ?thesis unfolding l by (rule current_entry_append)
      qed
    qed
  qed
qed

lemma monitor_products_window_inv:
  "window_inv m \<Longrightarrow> monitor_products py_str m obs = Inr m' \<Longrightarrow> window_inv m'"
proof (induction obs arbitrary: m)
  case Nil
  then show ?case by simp
next
  case (Cons ob obs)
  from Cons.prems(2) obtain m1 where s: "check_one py_str m ob = Inr m1"
    and t: "monitor_products py_str m1 obs = Inr m'"
    by (auto split: sum.splits)
  from check_one_window_inv [OF Cons.prems(1) s] have "window_inv m1" .
  from Cons.IH [OF this t] show ?case .
qed

lemma latest_for_member: "latest_for k rs = Some d \<Longrightarrow> d \<in> set rs"
  using latest_for_current [of k rs d] by (auto simp: current_entry_def)

lemma readable_error_result:
  "readable (Some (MonitoringResult_model_dump (error_result u now)))"
  by (simp add: readable_def MonitoringResult_model_dump_def error_result_def)

lemma readable_recorded:
  assumes "recorded ob r"
  shows "readable (Some r)"
proof -
  obtain u fetched now where ob: "ob = (u, fetched, now)" by (cases ob)
  show ?thesis
  proof (cases fetched)
    case None
    with assms ob show ?thesis by (simp add: recorded_def readable_error_result)
  next
    case (Some current)
    with assms ob obtain chs where "r = MonitoringResult_model_dump (success_result u current chs)"
      by (auto simp: recorded_def)
    then show ?thesis by (simp add: readable_success_result)
  qed
qed

lemma init_window_ok:
  assumes "init (Some rs) = Inr m" and "\<forall>r\<in>set rs. \<exists>ob. recorded ob r"
  shows "window_ok (previous_state m)"
proof -
  from assms(1) obtain w where w: "by_url (last_n 10 rs) Map.empty = Inr w"
    and m: "previous_state m = w"
    by (auto simp: init_def load_previous_state_def split: sum.splits)
  have "readable (w k)" for k
  proof (cases "w k")
    case None
    then show ?thesis by (simp add: readable_def)
  next
    case (Some d)
    then have "latest_for k (last_n 10 rs) = Some d"
      using by_url_latest [OF w, of k] by (simp split: option.splits)
    then have "d \<in> set rs" using latest_for_member set_last_n by fastforce
    with assms(2) Some show ?thesis using readable_recorded by auto
  qed
  then show ?thesis by (simp add: window_ok_def m)
qed

text \<open>
  C3, as stated, fails. A is checked with success, then the check of A fails: the error
  result is appended to the file and is the latest record of A there, while
  \<^verbatim>\<open>previous_state\<close> still holds the first result.
\<close>

theorem error_append_counterexample:
  "monitoring_runs no_str fresh [[(''A'', Some product_A1, ''t1'')], [(''A'', None, ''t2'')]] =
     Inr \<lparr>results_file = Some [MonitoringResult_model_dump (success_result ''A'' product_A1 [first_time]),
                               MonitoringResult_model_dump (error_result ''A'' ''t2'')],
          previous_state = [PStr ''A'' \<mapsto> MonitoringResult_model_dump (success_result ''A'' product_A1 [first_time])],
          alerts = []\<rparr>
   \<and> latest_for (PStr ''A'')
        [MonitoringResult_model_dump (success_result ''A'' product_A1 [first_time]),
         MonitoringResult_model_dump (error_result ''A'' ''t2'')]
       = Some (MonitoringResult_model_dump (error_result ''A'' ''t2''))
   \<and> MonitoringResult_model_dump (success_result ''A'' product_A1 [first_time])
       \<noteq> MonitoringResult_model_dump (error_result ''A'' ''t2'')"
proof -
  have a: "monitoring_runs no_str fresh [[(''A'', Some product_A1, ''t1'')], [(''A'', None, ''t2'')]] =
     Inr \<lparr>results_file = Some [MonitoringResult_model_dump (success_result ''A'' product_A1 [first_time]),
                               MonitoringResult_model_dump (error_result ''A'' ''t2'')],
          previous_state = [PStr ''A'' \<mapsto> MonitoringResult_model_dump (success_result ''A'' product_A1 [first_time])],
          alerts = []\<rparr>"
    by (simp add: fresh_def check_one_def detect_A1_fresh save_result_def stored_def Let_def)
  have b: "latest_for (PStr ''A'')
        [MonitoringResult_model_dump (success_result ''A'' product_A1 [first_time]),
         MonitoringResult_model_dump (error_result ''A'' ''t2'')]
       = Some (MonitoringResult_model_dump (error_result ''A'' ''t2''))"
    by (simp add: latest_for_Cons latest_for_Nil url_key_model_dump error_result_def)
  have "MonitoringResult_model_dump (success_result ''A'' product_A1 [first_time]) ''status''
       \<noteq> MonitoringResult_model_dump (error_result ''A'' ''t2'') ''status''"
    by (simp add: MonitoringResult_model_dump_def success_result_def error_result_def result_status_def)
  then have c: "MonitoringResult_model_dump (success_result ''A'' product_A1 [first_time])
       \<noteq> MonitoringResult_model_dump (error_result ''A'' ''t2'')"
    by metis
  from a b c show ?thesis by blast
qed

text \<open>
  C3, amended. From the start of the monitor on, and after any list of observations
  processed from a state where this holds, every entry of \<^verbatim>\<open>previous_state\<close> is a record
  of the results file with that URL, followed in the file by no record of the same URL
  other than error results. A failed check appends its error result and leaves
  \<^verbatim>\<open>previous_state\<close> as it is; a successful one appends its result and stores it under
  the URL.
\<close>

theorem window_follows_fetched_results:
  "(init f = Inr m0 \<longrightarrow> window_inv m0)
   \<and> (\<exists>m. init (Some (map MonitoringResult_model_dump rs)) = Inr m)
   \<and> (window_inv m \<and> monitor_products py_str m obs = Inr m' \<longrightarrow> window_inv m')
   \<and> check_one py_str m (u, None, now) = Inr (save_result m (error_result u now))
   \<and> previous_state (save_result m (error_result u now)) = previous_state m
   \<and> (check_one py_str m (u, Some current, now) = Inr m1 \<longrightarrow>
        (\<exists>r. stored (results_file m1) = stored (results_file m) @ [r]
           \<and> previous_state m1 = (previous_state m)(PStr u \<mapsto> r)))"
proof -
  obtain w where "by_url (map MonitoringResult_model_dump (last_n 10 rs)) Map.empty = Inr w"
    using by_url_persisted by blast
  then have "\<exists>m. init (Some (map MonitoringResult_model_dump rs)) = Inr m"
    by (simp add: init_def load_previous_state_def last_n_map)
  then show ?thesis
    using init_window_inv [of f m0] monitor_products_window_inv [of m py_str obs m']
      check_one_failed [of py_str m u now] check_one_fetched [of py_str m u current now m1]
    by (auto simp: save_result_others)
qed

theorem window_follows_fetched_results_witness:
  "window_inv
     \<lparr>results_file = Some [MonitoringResult_model_dump (success_result ''A'' product_A1 [first_time]),
                               MonitoringResult_model_dump (error_result ''B'' ''t1'')],
      previous_state = [PStr ''A'' \<mapsto> MonitoringResult_model_dump (success_result ''A'' product_A1 [first_time])],
      alerts = []\<rparr>
   \<and> previous_state (projr (check_one no_str fresh (''A'', Some product_A1, ''t1''))) (PStr ''A'')
       = Some (last (stored (results_file (projr (check_one no_str fresh (''A'', Some product_A1, ''t1''))))))"
proof -
  let ?m1 = "projr (check_one no_str fresh (''A'', Some product_A1, ''t1''))"
  have "window_inv fresh"
    using window_follows_fetched_results [of None fresh, THEN conjunct1] init_None by simp
  with window_follows_fetched_results [of None fresh "[]" fresh no_str tick1]
    tick1_run
  have a: "window_inv
     \<lparr>results_file = Some [MonitoringResult_model_dump (success_result ''A'' product_A1 [first_time]),
                               MonitoringResult_model_dump (error_result ''B'' ''t1'')],
      previous_state = [PStr ''A'' \<mapsto> MonitoringResult_model_dump (success_result ''A'' product_A1 [first_time])],
      alerts = []\<rparr>"
    by blast
  have "check_one no_str fresh (''A'', Some product_A1, ''t1'') = Inr ?m1"
    by (simp add: check_one_def fresh_def detect_A1_fresh Let_def)
  with window_follows_fetched_results [of None fresh "[]" fresh no_str "[]" fresh "''A''" "''t1''"
      product_A1 ?m1]
  obtain r where "stored (results_file ?m1) = stored (results_file fresh) @ [r]"
    and "previous_state ?m1 = (previous_state fresh)(PStr ''A'' \<mapsto> r)"
    by blast
  then have "previous_state ?m1 (PStr ''A'') = Some (last (stored (results_file ?m1)))"
    by simp
  with a show ?thesis by blast
qed

end
